theory Spec2Isabelle
  imports Complex_Main "HOL-Library.AList"
begin

section \<open>Data model (App.tsx, lines 24-47; nodes/index.ts; edges)\<close>

text \<open>
  JavaScript numbers are kept abstract: the type variable \<open>'n\<close> carries only the
  operations the source applies to them (\<open>-\<close>, \<open>/\<close> and numerals), so nothing below
  depends on how the arithmetic rounds. The concrete instances use \<open>real\<close>.
\<close>

datatype error = TypeError | LayoutError

text \<open>\<open>a ?? b\<close>: the right operand is taken only when the left one is null or undefined.\<close>

definition nullish :: "'a option \<Rightarrow> 'a \<Rightarrow> 'a" where
  "nullish a b = (case a of None \<Rightarrow> b | Some v \<Rightarrow> v)"

text \<open>\<open>a || b\<close> on an optional string: undefined and the empty string are falsy.\<close>

definition or_else :: "string option \<Rightarrow> string \<Rightarrow> string" where
  "or_else a b = (case a of None \<Rightarrow> b | Some s \<Rightarrow> if s = [] then b else s)"

record 'n XYPosition =
  pos_x :: 'n
  pos_y :: 'n

record 'n MeasuredDimensions =
  width :: "'n option"
  height :: "'n option"

text \<open>A value stored under a style key: a key may be present and hold \<open>undefined\<close>.\<close>

datatype 'n jsval = Undefined | Str string | Num 'n

text \<open>The opaque \<open>data\<close> payload of a node, as the host serialises it.\<close>

datatype 'n json =
  JNull | JBool bool | JNum 'n | JStr string | JArr "'n json list" | JObj "(string \<times> 'n json) list"

type_synonym 'n css = "string \<rightharpoonup> 'n jsval"

text \<open>
  \<open>MeasuredNode\<close>. The fields the program reads are named; every further field of a
  React Flow node lives in the record's extension part, which the object spread
  \<open>{...node, ...}\<close> carries along.
\<close>

record ('n, 'd) MeasuredNode =
  id_n :: string
  type_n :: "string option"
  position :: "'n XYPosition"
  data :: 'd
  measured :: "'n MeasuredDimensions option"
  style :: "'n css option"

record Edge =
  id_e :: string
  source :: string
  target :: string
  type_e :: "string option"
  animated :: "bool option"

record LayoutOptions =
  direction :: string

section \<open>The directed graph handed to the layout engine\<close>

text \<open>
  The part of the graph library's \<open>Graph\<close> object that \<open>getLayoutedElements\<close> drives:
  the graph label, the nodes in insertion order with their labels (a node created only as
  the endpoint of an edge has no label), and the edges in insertion order.
\<close>

record 'n NodeLabel =
  lwidth :: 'n
  lheight :: 'n

record 'n Graph =
  rankdir :: "string option"
  gnodes :: "(string \<times> 'n NodeLabel option) list"
  gedges :: "(string \<times> string) list"

definition newGraph :: "'n Graph" where
  "newGraph = \<lparr>rankdir = None, gnodes = [], gedges = []\<rparr>"

definition setGraph :: "string \<Rightarrow> 'n Graph \<Rightarrow> 'n Graph" where
  "setGraph d g = g\<lparr>rankdir := Some d\<rparr>"

text \<open>\<open>g.setNode(v, label)\<close>: a new node is appended, an existing one gets the new label.\<close>

definition setNode :: "string \<Rightarrow> 'n NodeLabel \<Rightarrow> 'n Graph \<Rightarrow> 'n Graph" where
  "setNode v l g = g\<lparr>gnodes := AList.update v (Some l) (gnodes g)\<rparr>"

text \<open>\<open>g.setNode(v)\<close> with no label, as \<open>setEdge\<close> calls it: an existing node is left alone.\<close>

definition ensureNode :: "string \<Rightarrow> 'n Graph \<Rightarrow> 'n Graph" where
  "ensureNode v g =
     (if v \<in> fst ` set (gnodes g) then g else g\<lparr>gnodes := gnodes g @ [(v, None)]\<rparr>)"

text \<open>\<open>g.setEdge(v, w)\<close>: a known edge is kept; a new one first makes sure both ends exist.\<close>

definition setEdge :: "string \<Rightarrow> string \<Rightarrow> 'n Graph \<Rightarrow> 'n Graph" where
  "setEdge v w g =
     (if (v, w) \<in> set (gedges g) then g
      else (ensureNode w (ensureNode v g))\<lparr>gedges := gedges g @ [(v, w)]\<rparr>)"

text \<open>\<open>g.node(v)\<close>: the label; undefined for an unknown node and for one without label.\<close>

definition gnode :: "'n Graph \<Rightarrow> string \<Rightarrow> 'n NodeLabel option" where
  "gnode g v = (case map_of (gnodes g) v of Some (Some l) \<Rightarrow> Some l | _ \<Rightarrow> None)"

text \<open>
  \<open>Dagre.layout(g)\<close> is a third-party routine and stays a parameter: it either throws or
  writes a centre point onto node labels. Its value here is what \<open>g.node(v)\<close> then reports
  as \<open>(x, y)\<close>, with \<open>None\<close> where \<open>g.node(v)\<close> is undefined.
\<close>

type_synonym 'n engine = "'n Graph \<Rightarrow> error + (string \<rightharpoonup> 'n XYPosition)"

section \<open>getLayoutedElements (App.tsx, lines 50-79)\<close>

text \<open>Lines 55-65: the graph that is built before the engine runs.\<close>

definition buildGraph ::
  "('n::numeral, 'd, 'z) MeasuredNode_scheme list \<Rightarrow> 'e Edge_scheme list \<Rightarrow> LayoutOptions
     \<Rightarrow> 'n Graph" where
  "buildGraph nodes edges options =
     fold (\<lambda>edge g. setEdge (source edge) (target edge) g) edges
       (fold (\<lambda>node g. setNode (id_n node)
                \<lparr>lwidth = nullish (Option.bind (measured node) width) 100,
                 lheight = nullish (Option.bind (measured node) height) 50\<rparr> g)
          nodes (setGraph (direction options) newGraph))"

text \<open>Lines 69-76: the callback of \<open>nodes.map\<close>; reading \<open>position.x\<close> of undefined throws.\<close>

definition layoutNode ::
  "(string \<rightharpoonup> ('n::{minus,inverse,numeral}) XYPosition) \<Rightarrow> ('n, 'd, 'z) MeasuredNode_scheme
     \<Rightarrow> error + ('n, 'd, 'z) MeasuredNode_scheme" where
  "layoutNode lay node =
     (case lay (id_n node) of
        None \<Rightarrow> Inl TypeError
      | Some p \<Rightarrow>
          let w = nullish (Option.bind (measured node) width) 100;
              h = nullish (Option.bind (measured node) height) 50;
              x = pos_x p - w / 2;
              y = pos_y p - h / 2
          in Inr (node\<lparr>position := \<lparr>pos_x = x, pos_y = y\<rparr>\<rparr>))"

text \<open>\<open>xs.map(f)\<close> with a callback that may throw: the first exception ends the map.\<close>

fun mapE :: "('a \<Rightarrow> error + 'b) \<Rightarrow> 'a list \<Rightarrow> error + 'b list" where
  "mapE f [] = Inr []"
| "mapE f (a # as) =
     (case f a of
        Inl e \<Rightarrow> Inl e
      | Inr b \<Rightarrow> (case mapE f as of Inl e \<Rightarrow> Inl e | Inr bs \<Rightarrow> Inr (b # bs)))"

text \<open>The result object \<open>{ nodes, edges }\<close> is the pair \<open>(nodes, edges)\<close>.\<close>

definition getLayoutedElements ::
  "('n::{minus,inverse,numeral}) engine \<Rightarrow> ('n, 'd, 'z) MeasuredNode_scheme list
     \<Rightarrow> 'e Edge_scheme list \<Rightarrow> LayoutOptions
     \<Rightarrow> error + (('n, 'd, 'z) MeasuredNode_scheme list \<times> 'e Edge_scheme list)" where
  "getLayoutedElements layout nodes edges options =
     (case layout (buildGraph nodes edges options) of
        Inl e \<Rightarrow> Inl e
      | Inr lay \<Rightarrow>
          (case mapE (layoutNode lay) nodes of
             Inl e \<Rightarrow> Inl e
           | Inr layoutedNodes \<Rightarrow> Inr (layoutedNodes, edges)))"

section \<open>The built-in graph (nodes/index.ts, line 6; edges, line 18)\<close>

definition initialNodes :: "('n::zero, 'n json) MeasuredNode list" where
  "initialNodes =
     [\<lparr>id_n = ''a'', type_n = Some ''input'', position = \<lparr>pos_x = 0, pos_y = 0\<rparr>,
       data = JObj [(''label'', JStr ''Start'')], measured = None, style = None\<rparr>]"

definition initialEdges :: "Edge list" where
  "initialEdges =
     [\<lparr>id_e = ''a->c'', source = ''a'', target = ''c'', type_e = None, animated = Some True\<rparr>]"

section \<open>useFlowChartStyles (App.tsx, lines 117-126)\<close>

record Theme =
  base :: "string option"
  secondaryBackgroundColor :: "string option"
  textColor :: "string option"
  primaryColor :: "string option"

record Styles =
  styles_backgroundColor :: string
  styles_textColor :: string
  styles_primaryColor :: string

definition useFlowChartStyles :: "Theme option \<Rightarrow> Styles" where
  "useFlowChartStyles theme =
     (let isDark = (Option.bind theme base = Some ''dark'')
      in \<lparr>styles_backgroundColor =
             or_else (Option.bind theme secondaryBackgroundColor)
               (if isDark then ''#333'' else ''#fff''),
           styles_textColor =
             or_else (Option.bind theme textColor) (if isDark then ''#fff'' else ''#000''),
           styles_primaryColor = or_else (Option.bind theme primaryColor) ''#007bff''\<rparr>)"

section \<open>Highlighting (App.tsx, lines 173-202)\<close>

text \<open>The template literal \<open>`2px solid ${styles.primaryColor}`\<close>.\<close>

definition highlightBorder :: "string \<Rightarrow> string" where
  "highlightBorder colour = ''2px solid '' @ colour"

text \<open>
  Lines 175-185, the updater passed to \<open>setNodes\<close>. The first argument is the
  \<open>styles.primaryColor\<close> the callback closes over, here \<open>colour\<close>. A spread
  \<open>{...a, ...b}\<close> is \<open>a ++ b\<close>.
\<close>

definition addBorderToNode ::
  "string \<Rightarrow> string \<Rightarrow> ('n, 'd, 'z) MeasuredNode_scheme list
     \<Rightarrow> ('n, 'd, 'z) MeasuredNode_scheme list" where
  "addBorderToNode colour nodeId prevNodes =
     map (\<lambda>node. node\<lparr>style := Some
            ((case style node of None \<Rightarrow> Map.empty | Some s \<Rightarrow> s) ++
             (if id_n node = nodeId
              then [''border'' \<mapsto> Str (highlightBorder colour)]
              else [''border'' \<mapsto> Undefined]))\<rparr>) prevNodes"

text \<open>\<open>node.style?.border\<close>: undefined without a style object or without the key.\<close>

definition styleBorder :: "('n, 'd, 'z) MeasuredNode_scheme \<Rightarrow> 'n jsval" where
  "styleBorder node =
     (case style node of
        None \<Rightarrow> Undefined
      | Some s \<Rightarrow> (case s ''border'' of None \<Rightarrow> Undefined | Some v \<Rightarrow> v))"

text \<open>
  Lines 191-202, the border effect, as the node state it leaves behind: nothing happens
  without a (non-empty) \<open>borderNodeId\<close>, nor when the target already shows the border.
\<close>

definition borderEffect ::
  "string \<Rightarrow> string option \<Rightarrow> ('n, 'd, 'z) MeasuredNode_scheme list
     \<Rightarrow> ('n, 'd, 'z) MeasuredNode_scheme list" where
  "borderEffect colour borderNodeId nodes =
     (case borderNodeId of
        None \<Rightarrow> nodes
      | Some b \<Rightarrow>
          if b = [] then nodes
          else (case find (\<lambda>node. id_n node = b \<and>
                            styleBorder node = Str (highlightBorder colour)) nodes of
                  Some nodeWithBorder \<Rightarrow> nodes
                | None \<Rightarrow> addBorderToNode colour b nodes))"

section \<open>The FlowChart component: layout memo and host updates (App.tsx, lines 133-170)\<close>

record 'n FlowChartArgs =
  nodes_a :: "('n, 'n json) MeasuredNode list option"
  edges_a :: "Edge list option"
  borderNodeId :: "string option"
  theme :: "Theme option"

text \<open>
  What one mounted component holds between renders: the node and edge state of
  \<open>useNodesState\<close>/\<open>useEdgesState\<close>, the dependencies and the value of the
  \<open>layoutedData\<close> memo, and a count of the calls of \<open>getLayoutedElements\<close> made so far.
\<close>

record 'n FlowChart =
  nodes_s :: "('n, 'n json) MeasuredNode list"
  edges_s :: "Edge list"
  layoutDeps :: "('n, 'n json) MeasuredNode list \<times> Edge list"
  layoutedData :: "('n, 'n json) MeasuredNode list \<times> Edge list"
  layoutRuns :: nat

text \<open>Lines 133-136: \<open>args?.nodes || initialNodes\<close>; an array, even an empty one, is truthy.\<close>

definition initialData ::
  "('n::zero) FlowChartArgs option \<Rightarrow> ('n, 'n json) MeasuredNode list \<times> Edge list" where
  "initialData args =
     (nullish (Option.bind args nodes_a) initialNodes,
      nullish (Option.bind args edges_a) initialEdges)"

text \<open>The first render: both memos are computed and seed the two states (lines 133-150).\<close>

definition firstRender ::
  "('n::{zero,minus,inverse,numeral}) engine \<Rightarrow> 'n FlowChartArgs option
     \<Rightarrow> error + 'n FlowChart" where
  "firstRender layout args =
     (let d = initialData args
      in case getLayoutedElements layout (fst d) (snd d) \<lparr>direction = ''TB''\<rparr> of
           Inl e \<Rightarrow> Inl e
         | Inr l \<Rightarrow>
             Inr \<lparr>nodes_s = fst l, edges_s = snd l, layoutDeps = d, layoutedData = l,
                  layoutRuns = 1\<rparr>)"

text \<open>
  A later render: the memo recomputes when its dependencies changed, and the states keep
  their values. React compares dependencies by identity; two arrays that differ as values
  are different objects, so a recomputation here is one in the program.
\<close>

definition reRender ::
  "('n::{zero,minus,inverse,numeral}) engine \<Rightarrow> 'n FlowChartArgs option \<Rightarrow> 'n FlowChart
     \<Rightarrow> error + 'n FlowChart" where
  "reRender layout args fc =
     (let d = initialData args
      in if d = layoutDeps fc then Inr fc
         else (case getLayoutedElements layout (fst d) (snd d) \<lparr>direction = ''TB''\<rparr> of
                 Inl e \<Rightarrow> Inl e
               | Inr l \<Rightarrow>
                   Inr (fc\<lparr>layoutDeps := d, layoutedData := l,
                          layoutRuns := Suc (layoutRuns fc)\<rparr>)))"

text \<open>Lines 163-170: the effect that runs when \<open>args.nodes\<close> or \<open>args.edges\<close> changed.\<close>

definition propsEffect :: "'n FlowChartArgs option \<Rightarrow> 'n FlowChart \<Rightarrow> 'n FlowChart" where
  "propsEffect args fc =
     (let fc1 = (case Option.bind args nodes_a of None \<Rightarrow> fc | Some ns \<Rightarrow> fc\<lparr>nodes_s := ns\<rparr>)
      in case Option.bind args edges_a of None \<Rightarrow> fc1 | Some es \<Rightarrow> fc1\<lparr>edges_s := es\<rparr>)"

text \<open>The host pushes a payload to a mounted component: a render, then the effect.\<close>

definition hostPush ::
  "('n::{zero,minus,inverse,numeral}) engine \<Rightarrow> 'n FlowChartArgs option \<Rightarrow> 'n FlowChart
     \<Rightarrow> error + 'n FlowChart" where
  "hostPush layout args fc =
     (case reRender layout args fc of Inl e \<Rightarrow> Inl e | Inr fc' \<Rightarrow> Inr (propsEffect args fc'))"

text \<open>Mounting: the first render, then the effect of lines 163-170 on the same \<open>args\<close>.\<close>

definition mount ::
  "('n::{zero,minus,inverse,numeral}) engine \<Rightarrow> 'n FlowChartArgs option
     \<Rightarrow> error + 'n FlowChart" where
  "mount layout args =
     (case firstRender layout args of Inl e \<Rightarrow> Inl e | Inr fc \<Rightarrow> Inr (propsEffect args fc))"

section \<open>The deferred fit-view call (App.tsx, lines 213-218)\<close>

text \<open>
  The timer table of the event loop together with the life cycle of the one component:
  the identifiers of the timers that are scheduled and neither run nor cleared, the
  \<open>timeoutId\<close> held by the effect's clean-up, and a log of the \<open>fitView\<close> calls made, each
  with the timer that made it and whether the component was mounted at that moment.
\<close>

record View =
  mounted :: bool
  nextTimer :: nat
  pendingTimers :: "nat list"
  timeoutId :: "nat option"
  fitViewLog :: "(nat \<times> bool) list"

definition initialView :: View where
  "initialView =
     \<lparr>mounted = False, nextTimer = 1, pendingTimers = [], timeoutId = None, fitViewLog = []\<rparr>"

text \<open>\<open>setTimeout(() => fitView(), 0)\<close>: a fresh identifier joins the end of the queue.\<close>

definition setTimeout :: "View \<Rightarrow> nat \<times> View" where
  "setTimeout v =
     (nextTimer v,
      v\<lparr>nextTimer := Suc (nextTimer v), pendingTimers := pendingTimers v @ [nextTimer v]\<rparr>)"

definition clearTimeout :: "nat \<Rightarrow> View \<Rightarrow> View" where
  "clearTimeout t v = v\<lparr>pendingTimers := removeAll t (pendingTimers v)\<rparr>"

text \<open>The effect body, and the clean-up function it returns.\<close>

definition fitViewEffect :: "View \<Rightarrow> View" where
  "fitViewEffect v = (case setTimeout v of (t, v') \<Rightarrow> v'\<lparr>timeoutId := Some t\<rparr>)"

definition fitViewCleanup :: "View \<Rightarrow> View" where
  "fitViewCleanup v =
     (case timeoutId v of None \<Rightarrow> v | Some t \<Rightarrow> (clearTimeout t v)\<lparr>timeoutId := None\<rparr>)"

text \<open>
  What can happen to the component: it mounts (the effect runs), it renders again with
  another \<open>fitView\<close> (clean-up, then the effect), it unmounts (clean-up), or the event loop
  runs the oldest pending timer.
\<close>

datatype event = Mount | FitViewChanged | Unmount | Tick

fun step :: "event \<Rightarrow> View \<Rightarrow> View" where
  "step Mount v = (if mounted v then v else fitViewEffect (v\<lparr>mounted := True\<rparr>))"
| "step FitViewChanged v = (if mounted v then fitViewEffect (fitViewCleanup v) else v)"
| "step Unmount v = (if mounted v then (fitViewCleanup v)\<lparr>mounted := False\<rparr> else v)"
| "step Tick v =
     (case pendingTimers v of
        [] \<Rightarrow> v
      | t # ts \<Rightarrow> v\<lparr>pendingTimers := ts, fitViewLog := fitViewLog v @ [(t, mounted v)]\<rparr>)"

definition run :: "event list \<Rightarrow> View \<Rightarrow> View" where
  "run evs v = fold step evs v"

text \<open>
  What holds in every state the component can reach: timer identifiers are below the
  next fresh one, a pending timer is queued once and has not run, the only timer that can
  be pending is the one the clean-up holds, an unmounted component holds none, and every
  logged call was made while mounted.
\<close>

definition view_ok :: "View \<Rightarrow> bool" where
  "view_ok v \<longleftrightarrow>
     (\<forall>t \<in> set (pendingTimers v). t < nextTimer v \<and> t \<notin> fst ` set (fitViewLog v)) \<and>
     distinct (pendingTimers v) \<and>
     set (pendingTimers v) \<subseteq> set_option (timeoutId v) \<and>
     (\<not> mounted v \<longrightarrow> timeoutId v = None) \<and>
     (\<forall>c \<in> set (fitViewLog v). fst c < nextTimer v \<and> snd c)"

section \<open>Sample inputs\<close>

text \<open>A layout engine for the concrete instances: it never throws and centres every
  labelled node at the point (width, height) of its own label.\<close>

definition sampleEngine :: "'n engine" where
  "sampleEngine g =
     Inr (\<lambda>v. map_option (\<lambda>l. \<lparr>pos_x = lwidth l, pos_y = lheight l\<rparr>) (gnode g v))"



text \<open>A measured node (80 by 40), the same node before its first paint, and the
  direction the component asks for.\<close>

definition sampleNode :: "(real, real json) MeasuredNode" where
  "sampleNode =
     \<lparr>id_n = ''n1'', type_n = None, position = \<lparr>pos_x = 7, pos_y = 9\<rparr>, data = JNull,
       measured = Some \<lparr>width = Some 80, height = Some 40\<rparr>, style = None\<rparr>"

definition unmeasuredNode :: "(real, real json) MeasuredNode" where
  "unmeasuredNode = sampleNode\<lparr>measured := None\<rparr>"

text \<open>A node that already has a style, with an old border among its entries.\<close>

definition styledNode :: "(real, real json) MeasuredNode" where
  "styledNode =
     \<lparr>id_n = ''n2'', type_n = Some ''default'', position = \<lparr>pos_x = 1, pos_y = 2\<rparr>,
       data = JNull, measured = None,
       style = Some [''color'' \<mapsto> Str ''red'', ''border'' \<mapsto> Str ''1px dotted'']\<rparr>"

text \<open>A component mounted without host data, a payload that brings one node and no
  edges, and the component after that payload.\<close>

definition mountedDefault :: "real FlowChart" where
  "mountedDefault =
     \<lparr>nodes_s = [(hd initialNodes)\<lparr>position := \<lparr>pos_x = 50, pos_y = 25\<rparr>\<rparr>],
      edges_s = initialEdges,
      layoutDeps = (initialNodes, initialEdges),
      layoutedData = ([(hd initialNodes)\<lparr>position := \<lparr>pos_x = 50, pos_y = 25\<rparr>\<rparr>], initialEdges),
      layoutRuns = 1\<rparr>"

definition pushedArgs :: "real FlowChartArgs" where
  "pushedArgs = \<lparr>nodes_a = Some [sampleNode], edges_a = None, borderNodeId = None, theme = None\<rparr>"

definition afterPush :: "real FlowChart" where
  "afterPush =
     \<lparr>nodes_s = [sampleNode],
      edges_s = initialEdges,
      layoutDeps = ([sampleNode], initialEdges),
      layoutedData = ([sampleNode\<lparr>position := \<lparr>pos_x = 40, pos_y = 20\<rparr>\<rparr>], initialEdges),
      layoutRuns = 2\<rparr>"

definition topToBottom :: LayoutOptions where
  "topToBottom = \<lparr>direction = ''TB''\<rparr>"

section \<open>Facts about the layout adapter\<close>

lemma mapE_Inr_length: "mapE f xs = Inr ys \<Longrightarrow> length ys = length xs"
  by (induction xs arbitrary: ys) (auto split: sum.splits)

lemma mapE_Inr_nth:
  "mapE f xs = Inr ys \<Longrightarrow> i < length xs \<Longrightarrow> f (xs ! i) = Inr (ys ! i)"
proof (induction xs arbitrary: ys i)
  case Nil
  then show ?case by simp
next
  case (Cons a as)
  then show ?case
    by (cases i) (auto split: sum.splits)
qed


lemma layoutNode_Inr:
  "layoutNode lay node = Inr node' \<Longrightarrow>
     \<exists>c. lay (id_n node) = Some c \<and>
         node' = node\<lparr>position :=
           \<lparr>pos_x = pos_x c - nullish (Option.bind (measured node) width) 100 / 2,
            pos_y = pos_y c - nullish (Option.bind (measured node) height) 50 / 2\<rparr>\<rparr>"
  by (auto simp: layoutNode_def Let_def split: option.splits)

lemma getLayoutedElements_Inr:
  assumes "getLayoutedElements layout nodes edges options = Inr (layoutedNodes, es)"
  shows "\<exists>lay. layout (buildGraph nodes edges options) = Inr lay \<and>
               mapE (layoutNode lay) nodes = Inr layoutedNodes \<and> es = edges"
  using assms by (auto simp: getLayoutedElements_def split: sum.splits)

subsection \<open>Labels of the graph that is built\<close>

lemma gnode_setNode: "gnode (setNode v l g) u = (if u = v then Some l else gnode g u)"
  by (simp add: gnode_def setNode_def update_conv')

lemma gnode_ensureNode: "gnode (ensureNode v g) = gnode g"
proof (rule ext)
  fix u
  show "gnode (ensureNode v g) u = gnode g u"
  proof (cases "v \<in> fst ` set (gnodes g)")
    case True
    then show ?thesis by (simp add: ensureNode_def)
  next
    case False
    then have "map_of (gnodes g) v = None" by (simp add: map_of_eq_None_iff)
    then show ?thesis
      by (auto simp: ensureNode_def gnode_def map_add_def split: option.splits)
  qed
qed

lemma gnode_setEdge: "gnode (setEdge v w g) = gnode g"
proof -
  have "gnode (g'\<lparr>gedges := es\<rparr>) = gnode g'" for g' :: "'a Graph" and es
    by (rule ext) (simp add: gnode_def)
  then show ?thesis by (simp add: setEdge_def gnode_ensureNode)
qed

lemma gnode_fold_setEdge:
  "gnode (fold (\<lambda>edge g. setEdge (source edge) (target edge) g) edges g) = gnode g"
  by (induction edges arbitrary: g) (simp_all add: gnode_setEdge)

lemma gnode_fold_setNode_other:
  "v \<notin> id_n ` set nodes \<Longrightarrow> gnode (fold (\<lambda>node g. setNode (id_n node) (lab node) g) nodes g) v = gnode g v"
  by (induction nodes arbitrary: g) (auto simp: gnode_setNode)



lemma gnode_buildGraph_last:
  assumes "i < length nodes" and "id_n (nodes ! i) \<notin> id_n ` set (drop (Suc i) nodes)"
  shows "gnode (buildGraph nodes edges options) (id_n (nodes ! i)) =
           Some \<lparr>lwidth = nullish (Option.bind (measured (nodes ! i)) width) 100,
                 lheight = nullish (Option.bind (measured (nodes ! i)) height) 50\<rparr>"
proof -
  have split: "nodes = take i nodes @ nodes ! i # drop (Suc i) nodes"
    using assms(1) by (simp add: id_take_nth_drop)
  show ?thesis
    unfolding buildGraph_def gnode_fold_setEdge
    by (subst split) (simp add: gnode_fold_setNode_other [OF assms(2)] gnode_setNode)
qed

subsection \<open>Evaluating the definitions\<close>

lemmas graph_defs =
  buildGraph_def setNode_def setEdge_def ensureNode_def setGraph_def newGraph_def gnode_def

lemma sample_layout:
  "getLayoutedElements sampleEngine [sampleNode] ([]::Edge list) topToBottom =
     Inr ([sampleNode\<lparr>position := \<lparr>pos_x = 40, pos_y = 20\<rparr>\<rparr>], [])"
  by (simp add: getLayoutedElements_def sampleEngine_def sampleNode_def topToBottom_def
      layoutNode_def nullish_def graph_defs)

section \<open>Position centring\<close>

text \<open>
  Claim C1. Whenever the layout operation returns, it returns one node per input node, in
  the input order, and the node at each index is the input node with a new position: the
  centre \<open>c\<close> that the layout engine reports for the node's id, minus half the width and
  half the height used for the node. With a measured size \<open>(w, h)\<close> the position is
  \<open>(cx - w / 2, cy - h / 2)\<close>.
\<close>

theorem layout_position_centred:
  assumes "getLayoutedElements layout nodes edges options = Inr (layoutedNodes, es)"
  shows "\<exists>lay. layout (buildGraph nodes edges options) = Inr lay \<and>
           length layoutedNodes = length nodes \<and>
           (\<forall>i<length nodes. \<exists>c.
               lay (id_n (nodes ! i)) = Some c \<and>
               layoutedNodes ! i = (nodes ! i)\<lparr>position := position (layoutedNodes ! i)\<rparr> \<and>
               position (layoutedNodes ! i) =
                 \<lparr>pos_x = pos_x c - nullish (Option.bind (measured (nodes ! i)) width) 100 / 2,
                  pos_y = pos_y c - nullish (Option.bind (measured (nodes ! i)) height) 50 / 2\<rparr> \<and>
               (\<forall>m w h. measured (nodes ! i) = Some m \<and> width m = Some w \<and> height m = Some h
                   \<longrightarrow> position (layoutedNodes ! i) =
                        \<lparr>pos_x = pos_x c - w / 2, pos_y = pos_y c - h / 2\<rparr>))"
proof -
  from getLayoutedElements_Inr [OF assms] obtain lay where
    lay: "layout (buildGraph nodes edges options) = Inr lay" and
    m: "mapE (layoutNode lay) nodes = Inr layoutedNodes"
    by blast
  have len: "length layoutedNodes = length nodes"
    using m by (rule mapE_Inr_length)
  have "\<exists>c. lay (id_n (nodes ! i)) = Some c \<and>
               layoutedNodes ! i = (nodes ! i)\<lparr>position := position (layoutedNodes ! i)\<rparr> \<and>
               position (layoutedNodes ! i) =
                 \<lparr>pos_x = pos_x c - nullish (Option.bind (measured (nodes ! i)) width) 100 / 2,
                  pos_y = pos_y c - nullish (Option.bind (measured (nodes ! i)) height) 50 / 2\<rparr> \<and>
               (\<forall>m w h. measured (nodes ! i) = Some m \<and> width m = Some w \<and> height m = Some h
                   \<longrightarrow> position (layoutedNodes ! i) =
                        \<lparr>pos_x = pos_x c - w / 2, pos_y = pos_y c - h / 2\<rparr>)"
    if i: "i < length nodes" for i
  proof -
    from mapE_Inr_nth [OF m i] have "layoutNode lay (nodes ! i) = Inr (layoutedNodes ! i)" .
    from layoutNode_Inr [OF this] obtain c where
      c: "lay (id_n (nodes ! i)) = Some c" and
      eq: "layoutedNodes ! i = (nodes ! i)\<lparr>position :=
           \<lparr>pos_x = pos_x c - nullish (Option.bind (measured (nodes ! i)) width) 100 / 2,
            pos_y = pos_y c - nullish (Option.bind (measured (nodes ! i)) height) 50 / 2\<rparr>\<rparr>"
      by blast
    have pos: "position (layoutedNodes ! i) =
           \<lparr>pos_x = pos_x c - nullish (Option.bind (measured (nodes ! i)) width) 100 / 2,
            pos_y = pos_y c - nullish (Option.bind (measured (nodes ! i)) height) 50 / 2\<rparr>"
      by (subst eq) simp
    have frame: "layoutedNodes ! i = (nodes ! i)\<lparr>position := position (layoutedNodes ! i)\<rparr>"
      by (subst (1 2) eq) simp
    have "position (layoutedNodes ! i) = \<lparr>pos_x = pos_x c - w / 2, pos_y = pos_y c - h / 2\<rparr>"
      if "measured (nodes ! i) = Some m \<and> width m = Some w \<and> height m = Some h" for m w h
      using that pos by (simp add: nullish_def)
    with c pos frame show ?thesis by (intro exI conjI allI) auto
  qed
  with lay len show ?thesis by (intro exI conjI) auto
qed

theorem layout_position_centred_witness:
  "getLayoutedElements sampleEngine [sampleNode] ([]::Edge list) topToBottom =
     Inr ([sampleNode\<lparr>position := \<lparr>pos_x = 40, pos_y = 20\<rparr>\<rparr>], []) \<and>
   position (sampleNode\<lparr>position := \<lparr>pos_x = 40, pos_y = 20\<rparr>\<rparr>) =
     \<lparr>pos_x = 80 - 80 / 2, pos_y = 40 - 40 / 2\<rparr>"
  using layout_position_centred [OF sample_layout] sample_layout by simp

section \<open>Layout changes positions only\<close>

text \<open>
  Claim C7. Whenever the layout operation returns, the edge sequence is the input edge
  sequence, and each output node differs from the input node at the same index in its
  position at most: identifier, type, data, measured size, style and every further field
  are the input's.
\<close>

theorem layout_changes_position_only:
  assumes "getLayoutedElements layout nodes edges options = Inr (layoutedNodes, es)"
  shows "es = edges \<and> length layoutedNodes = length nodes \<and>
         (\<forall>i<length nodes.
            (layoutedNodes ! i)\<lparr>position := position (nodes ! i)\<rparr> = nodes ! i \<and>
            id_n (layoutedNodes ! i) = id_n (nodes ! i) \<and>
            type_n (layoutedNodes ! i) = type_n (nodes ! i) \<and>
            data (layoutedNodes ! i) = data (nodes ! i) \<and>
            measured (layoutedNodes ! i) = measured (nodes ! i) \<and>
            style (layoutedNodes ! i) = style (nodes ! i) \<and>
            MeasuredNode.more (layoutedNodes ! i) = MeasuredNode.more (nodes ! i))"
proof -
  from getLayoutedElements_Inr [OF assms] obtain lay where
    m: "mapE (layoutNode lay) nodes = Inr layoutedNodes" and es: "es = edges"
    by blast
  have len: "length layoutedNodes = length nodes"
    using m by (rule mapE_Inr_length)
  have "(layoutedNodes ! i)\<lparr>position := position (nodes ! i)\<rparr> = nodes ! i \<and>
            id_n (layoutedNodes ! i) = id_n (nodes ! i) \<and>
            type_n (layoutedNodes ! i) = type_n (nodes ! i) \<and>
            data (layoutedNodes ! i) = data (nodes ! i) \<and>
            measured (layoutedNodes ! i) = measured (nodes ! i) \<and>
            style (layoutedNodes ! i) = style (nodes ! i) \<and>
            MeasuredNode.more (layoutedNodes ! i) = MeasuredNode.more (nodes ! i)"
    if i: "i < length nodes" for i
  proof -
    from mapE_Inr_nth [OF m i] have "layoutNode lay (nodes ! i) = Inr (layoutedNodes ! i)" .
    from layoutNode_Inr [OF this] obtain p where
      "layoutedNodes ! i = (nodes ! i)\<lparr>position := p\<rparr>"
      by blast
    then show ?thesis by simp
  qed
  with es len show ?thesis by blast
qed

theorem layout_changes_position_only_witness:
  "getLayoutedElements sampleEngine [sampleNode] ([]::Edge list) topToBottom =
     Inr ([sampleNode\<lparr>position := \<lparr>pos_x = 40, pos_y = 20\<rparr>\<rparr>], []) \<and>
   (sampleNode\<lparr>position := \<lparr>pos_x = 40, pos_y = 20\<rparr>\<rparr>)\<lparr>position := position sampleNode\<rparr> = sampleNode"
  using layout_changes_position_only [OF sample_layout] sample_layout by simp

section \<open>Edges to unknown nodes\<close>

text \<open>Adding edges, dangling or not, leaves every node label as \<open>setNode\<close> wrote it.\<close>

lemma gnode_buildGraph_edges:
  "gnode (buildGraph nodes edges options) = gnode (buildGraph nodes ([]::'e Edge_scheme list) options)"
  by (simp add: buildGraph_def gnode_fold_setEdge)



















section \<open>The default size\<close>

text \<open>Nodes with the same identifiers and the same effective sizes give the same graph,
  hence the same answer of the engine, and the same positions.\<close>

lemma fold_cong_all2:
  "list_all2 (\<lambda>a b. F a = F b) xs ys \<Longrightarrow> fold F xs g = fold F ys g"
  by (induction xs ys arbitrary: g rule: list_all2_induct) simp_all

lemma mapE_cong_all2:
  "list_all2 (\<lambda>a b. map_sum (\<lambda>e. e) p (f a) = map_sum (\<lambda>e. e) p (f b)) xs ys \<Longrightarrow>
     map_sum (\<lambda>e. e) (map p) (mapE f xs) = map_sum (\<lambda>e. e) (map p) (mapE f ys)"
proof (induction xs ys rule: list_all2_induct)
  case Nil
  then show ?case by simp
next
  case (Cons a as b bs)
  then show ?case
    by (cases "f a"; cases "f b"; cases "mapE f as"; cases "mapE f bs") auto
qed

lemma buildGraph_same_sizes:
  fixes nodes nodes' :: "('n::numeral, 'd, 'z) MeasuredNode_scheme list"
  assumes "list_all2 (\<lambda>node node'. id_n node' = id_n node \<and>
             nullish (Option.bind (measured node') width) 100 =
               nullish (Option.bind (measured node) width) 100 \<and>
             nullish (Option.bind (measured node') height) 50 =
               nullish (Option.bind (measured node) height) 50) nodes nodes'"
  shows "buildGraph nodes' edges options = buildGraph nodes edges options"
proof -
  let ?F = "\<lambda>node g. setNode (id_n node)
                \<lparr>lwidth = nullish (Option.bind (measured node) width) 100,
                 lheight = nullish (Option.bind (measured node) height) 50\<rparr> g"
  have "list_all2 (\<lambda>a b. ?F a = ?F b) nodes nodes'"
    using assms by (rule list_all2_mono) simp
  then have "fold ?F nodes g = fold ?F nodes' g" for g
    by (rule fold_cong_all2)
  then show ?thesis by (simp add: buildGraph_def)
qed

lemma layoutNode_same_sizes:
  fixes node node' :: "('n::{minus,inverse,numeral}, 'd, 'z) MeasuredNode_scheme"
  assumes "id_n node' = id_n node"
    and "nullish (Option.bind (measured node') width) 100 =
           nullish (Option.bind (measured node) width) 100"
    and "nullish (Option.bind (measured node') height) 50 =
           nullish (Option.bind (measured node) height) 50"
  shows "map_sum (\<lambda>e. e) position (layoutNode lay node) =
         map_sum (\<lambda>e. e) position (layoutNode lay node')"
  by (simp add: layoutNode_def Let_def assms split: option.splits)

lemma getLayoutedElements_same_sizes:
  fixes nodes nodes' :: "('n::{minus,inverse,numeral}, 'd, 'z) MeasuredNode_scheme list"
  assumes "list_all2 (\<lambda>node node'. id_n node' = id_n node \<and>
             nullish (Option.bind (measured node') width) 100 =
               nullish (Option.bind (measured node) width) 100 \<and>
             nullish (Option.bind (measured node') height) 50 =
               nullish (Option.bind (measured node) height) 50) nodes nodes'"
  shows "map_sum (\<lambda>e. e) (\<lambda>r. (map position (fst r), snd r))
           (getLayoutedElements layout nodes' edges options) =
         map_sum (\<lambda>e. e) (\<lambda>r. (map position (fst r), snd r))
           (getLayoutedElements layout nodes edges options)"
proof -
  have g: "buildGraph nodes' edges options = buildGraph nodes edges options"
    using assms by (rule buildGraph_same_sizes)
  have "list_all2 (\<lambda>a b. map_sum (\<lambda>e. e) position (layoutNode lay a) =
                         map_sum (\<lambda>e. e) position (layoutNode lay b)) nodes nodes'" for lay
    using assms by (rule list_all2_mono) (rule layoutNode_same_sizes, simp_all)
  then have m: "map_sum (\<lambda>e. e) (map position) (mapE (layoutNode lay) nodes) =
             map_sum (\<lambda>e. e) (map position) (mapE (layoutNode lay) nodes')" for lay
    by (rule mapE_cong_all2)
  show ?thesis
  proof (cases "layout (buildGraph nodes edges options)")
    case (Inl e)
    then show ?thesis by (simp add: getLayoutedElements_def g)
  next
    case (Inr lay)
    with m [of lay] show ?thesis
      by (cases "mapE (layoutNode lay) nodes"; cases "mapE (layoutNode lay) nodes'")
         (auto simp: getLayoutedElements_def g)
  qed
qed

lemma getLayoutedElements_nth:
  assumes "getLayoutedElements layout nodes edges options = Inr (layoutedNodes, es)"
    and "i < length nodes"
  shows "\<exists>lay c. layout (buildGraph nodes edges options) = Inr lay \<and>
           lay (id_n (nodes ! i)) = Some c \<and>
           layoutedNodes ! i = (nodes ! i)\<lparr>position :=
             \<lparr>pos_x = pos_x c - nullish (Option.bind (measured (nodes ! i)) width) 100 / 2,
              pos_y = pos_y c - nullish (Option.bind (measured (nodes ! i)) height) 50 / 2\<rparr>\<rparr>"
proof -
  from getLayoutedElements_Inr [OF assms(1)] obtain lay where
    lay: "layout (buildGraph nodes edges options) = Inr lay" and
    m: "mapE (layoutNode lay) nodes = Inr layoutedNodes"
    by blast
  from mapE_Inr_nth [OF m assms(2)]
  have "layoutNode lay (nodes ! i) = Inr (layoutedNodes ! i)" .
  from layoutNode_Inr [OF this] lay show ?thesis by blast
qed

lemma unmeasured_layout:
  "getLayoutedElements sampleEngine [unmeasuredNode] ([]::Edge list) topToBottom =
     Inr ([unmeasuredNode\<lparr>position := \<lparr>pos_x = 50, pos_y = 25\<rparr>\<rparr>], [])"
  by (simp add: getLayoutedElements_def sampleEngine_def unmeasuredNode_def sampleNode_def
      topToBottom_def layoutNode_def nullish_def graph_defs)

text \<open>
  Claim C2. Replace any of the nodes that have no measured size by the same node measured
  at exactly 100 by 50. Then the graph handed to the layout engine is the same graph, and
  the layout operation ends the same way: with the same error, or with the same positions
  and edges. Directly: a node without measured size gets the label 100 by 50 in the graph
  (when no later node overwrites the label under the same identifier), and its position is
  the reported centre minus 100 / 2 and 50 / 2.
\<close>

theorem unmeasured_node_sized_100_by_50:
  assumes "list_all2 (\<lambda>node node'. node' = node \<or>
             (measured node = None \<and>
              node' = node\<lparr>measured := Some \<lparr>width = Some 100, height = Some 50\<rparr>\<rparr>))
           nodes nodes'"
  shows "buildGraph nodes' edges options = buildGraph nodes edges options \<and>
         map_sum (\<lambda>e. e) (\<lambda>r. (map position (fst r), snd r))
           (getLayoutedElements layout nodes' edges options) =
         map_sum (\<lambda>e. e) (\<lambda>r. (map position (fst r), snd r))
           (getLayoutedElements layout nodes edges options) \<and>
         (\<forall>i<length nodes. measured (nodes ! i) = None \<longrightarrow>
            (id_n (nodes ! i) \<notin> id_n ` set (drop (Suc i) nodes) \<longrightarrow>
               gnode (buildGraph nodes edges options) (id_n (nodes ! i)) =
                 Some \<lparr>lwidth = 100, lheight = 50\<rparr>) \<and>
            (\<forall>layoutedNodes es.
               getLayoutedElements layout nodes edges options = Inr (layoutedNodes, es) \<longrightarrow>
               (\<exists>lay c. layout (buildGraph nodes edges options) = Inr lay \<and>
                  lay (id_n (nodes ! i)) = Some c \<and>
                  position (layoutedNodes ! i) =
                    \<lparr>pos_x = pos_x c - 100 / 2, pos_y = pos_y c - 50 / 2\<rparr>)))"
proof -
  have same: "list_all2 (\<lambda>node node'. id_n node' = id_n node \<and>
             nullish (Option.bind (measured node') width) 100 =
               nullish (Option.bind (measured node) width) 100 \<and>
             nullish (Option.bind (measured node') height) 50 =
               nullish (Option.bind (measured node) height) 50) nodes nodes'"
    using assms by (rule list_all2_mono) (auto simp: nullish_def)
  have a: "buildGraph nodes' edges options = buildGraph nodes edges options"
    using same by (rule buildGraph_same_sizes)
  have b: "map_sum (\<lambda>e. e) (\<lambda>r. (map position (fst r), snd r))
           (getLayoutedElements layout nodes' edges options) =
         map_sum (\<lambda>e. e) (\<lambda>r. (map position (fst r), snd r))
           (getLayoutedElements layout nodes edges options)"
    using same by (rule getLayoutedElements_same_sizes)
  have c: "gnode (buildGraph nodes edges options) (id_n (nodes ! i)) =
                 Some \<lparr>lwidth = 100, lheight = 50\<rparr>"
    if "i < length nodes" "measured (nodes ! i) = None"
       "id_n (nodes ! i) \<notin> id_n ` set (drop (Suc i) nodes)" for i
    using gnode_buildGraph_last [OF that(1) that(3), of edges options] that(2)
    by (simp add: nullish_def)
  have d: "\<exists>lay c. layout (buildGraph nodes edges options) = Inr lay \<and>
                  lay (id_n (nodes ! i)) = Some c \<and>
                  position (layoutedNodes ! i) =
                    \<lparr>pos_x = pos_x c - 100 / 2, pos_y = pos_y c - 50 / 2\<rparr>"
    if "i < length nodes" "measured (nodes ! i) = None"
       "getLayoutedElements layout nodes edges options = Inr (layoutedNodes, es)"
    for i layoutedNodes es
  proof -
    from getLayoutedElements_nth [OF that(3) that(1)] obtain lay c where
      "layout (buildGraph nodes edges options) = Inr lay" "lay (id_n (nodes ! i)) = Some c"
      "layoutedNodes ! i = (nodes ! i)\<lparr>position :=
             \<lparr>pos_x = pos_x c - nullish (Option.bind (measured (nodes ! i)) width) 100 / 2,
              pos_y = pos_y c - nullish (Option.bind (measured (nodes ! i)) height) 50 / 2\<rparr>\<rparr>"
      by blast
    then show ?thesis using that(2) by (simp add: nullish_def)
  qed
  show ?thesis
  proof (intro conjI allI impI)
    show "buildGraph nodes' edges options = buildGraph nodes edges options"
      by (rule a)
    show "map_sum (\<lambda>e. e) (\<lambda>r. (map position (fst r), snd r))
           (getLayoutedElements layout nodes' edges options) =
         map_sum (\<lambda>e. e) (\<lambda>r. (map position (fst r), snd r))
           (getLayoutedElements layout nodes edges options)"
      by (rule b)
  next
    fix i
    assume "i < length nodes" "measured (nodes ! i) = None"
      "id_n (nodes ! i) \<notin> id_n ` set (drop (Suc i) nodes)"
    then show "gnode (buildGraph nodes edges options) (id_n (nodes ! i)) =
                 Some \<lparr>lwidth = 100, lheight = 50\<rparr>"
      by (rule c)
  next
    fix i layoutedNodes es
    assume "i < length nodes" "measured (nodes ! i) = None"
      "getLayoutedElements layout nodes edges options = Inr (layoutedNodes, es)"
    then show "\<exists>lay c. layout (buildGraph nodes edges options) = Inr lay \<and>
                  lay (id_n (nodes ! i)) = Some c \<and>
                  position (layoutedNodes ! i) =
                    \<lparr>pos_x = pos_x c - 100 / 2, pos_y = pos_y c - 50 / 2\<rparr>"
      by (rule d)
  qed
qed

theorem unmeasured_node_sized_100_by_50_witness:
  "measured unmeasuredNode = None \<and>
   getLayoutedElements sampleEngine [unmeasuredNode] ([]::Edge list) topToBottom =
     Inr ([unmeasuredNode\<lparr>position := \<lparr>pos_x = 50, pos_y = 25\<rparr>\<rparr>], []) \<and>
   map_sum (\<lambda>e. e) (\<lambda>r. (map position (fst r), snd r))
     (getLayoutedElements sampleEngine
        [unmeasuredNode\<lparr>measured := Some \<lparr>width = Some 100, height = Some 50\<rparr>\<rparr>]
        ([]::Edge list) topToBottom) =
     Inr ([\<lparr>pos_x = 50, pos_y = 25\<rparr>], [])"
proof -
  have h: "list_all2 (\<lambda>node node'. node' = node \<or>
             (measured node = None \<and>
              node' = node\<lparr>measured := Some \<lparr>width = Some 100, height = Some 50\<rparr>\<rparr>))
           [unmeasuredNode]
           [unmeasuredNode\<lparr>measured := Some \<lparr>width = Some 100, height = Some 50\<rparr>\<rparr>]"
    by (simp add: unmeasuredNode_def)
  from unmeasured_node_sized_100_by_50 [OF h, of "[]::Edge list" topToBottom sampleEngine]
  have "map_sum (\<lambda>e. e) (\<lambda>r. (map position (fst r), snd r))
     (getLayoutedElements sampleEngine
        [unmeasuredNode\<lparr>measured := Some \<lparr>width = Some 100, height = Some 50\<rparr>\<rparr>]
        ([]::Edge list) topToBottom) =
     map_sum (\<lambda>e. e) (\<lambda>r. (map position (fst r), snd r))
       (getLayoutedElements sampleEngine [unmeasuredNode] ([]::Edge list) topToBottom)"
    by (rule conjunct1 [OF conjunct2])
  then show ?thesis
    by (simp add: unmeasured_layout) (simp add: unmeasuredNode_def)
qed

section \<open>Highlighting\<close>

lemma addBorderToNode_nth:
  "i < length nodes \<Longrightarrow>
     addBorderToNode colour X nodes ! i =
       (nodes ! i)\<lparr>style := Some
          ((case style (nodes ! i) of None \<Rightarrow> Map.empty | Some s \<Rightarrow> s)
             (''border'' \<mapsto> (if id_n (nodes ! i) = X then Str (highlightBorder colour)
                             else Undefined)))\<rparr>"
  by (simp add: addBorderToNode_def)

lemma addBorderToNode_twice:
  "addBorderToNode colour X (addBorderToNode colour X nodes) = addBorderToNode colour X nodes"
  by (simp add: addBorderToNode_def)

lemma styleBorder_addBorderToNode:
  "node \<in> set (addBorderToNode colour X nodes) \<Longrightarrow>
     styleBorder node = (if id_n node = X then Str (highlightBorder colour) else Undefined)"
  by (auto simp: addBorderToNode_def styleBorder_def)

lemma sample_highlight:
  "addBorderToNode ''#007bff'' ''n1'' [sampleNode, styledNode] =
     [sampleNode\<lparr>style := Some [''border'' \<mapsto> Str ''2px solid #007bff'']\<rparr>,
      styledNode\<lparr>style := Some [''color'' \<mapsto> Str ''red'', ''border'' \<mapsto> Undefined]\<rparr>]"
  by (simp add: addBorderToNode_def highlightBorder_def sampleNode_def styledNode_def)

text \<open>
  Claim C4. After \<open>addBorderToNode\<close> has run with target \<open>X\<close>, every node whose identifier
  is not \<open>X\<close> has the border entry \<open>undefined\<close>, which is not the highlight border.
\<close>

theorem highlight_exclusive:
  "\<forall>node \<in> set (addBorderToNode colour X nodes).
     id_n node \<noteq> X \<longrightarrow>
       styleBorder node = Undefined \<and> styleBorder node \<noteq> Str (highlightBorder colour)"
  by (simp add: styleBorder_addBorderToNode)

theorem highlight_exclusive_witness:
  "addBorderToNode ''#007bff'' ''n1'' [sampleNode, styledNode] =
     [sampleNode\<lparr>style := Some [''border'' \<mapsto> Str ''2px solid #007bff'']\<rparr>,
      styledNode\<lparr>style := Some [''color'' \<mapsto> Str ''red'', ''border'' \<mapsto> Undefined]\<rparr>] \<and>
   id_n styledNode \<noteq> ''n1'' \<and>
   styleBorder (styledNode\<lparr>style := Some [''color'' \<mapsto> Str ''red'', ''border'' \<mapsto> Undefined]\<rparr>)
     = Undefined"
  using highlight_exclusive [of "''#007bff''" "''n1''" "[sampleNode, styledNode]"]
  by (simp add: addBorderToNode_def highlightBorder_def sampleNode_def styledNode_def
      styleBorder_def)

text \<open>
  Claim C5. Highlighting twice with the same target gives the node sequence that
  highlighting once gives, both for the updater \<open>addBorderToNode\<close> and for the border
  effect with its check of the target's current border.
\<close>

theorem highlight_idempotent:
  "addBorderToNode colour X (addBorderToNode colour X nodes) = addBorderToNode colour X nodes \<and>
   borderEffect colour b (borderEffect colour b nodes) = borderEffect colour b nodes"
proof
  show "addBorderToNode colour X (addBorderToNode colour X nodes) =
          addBorderToNode colour X nodes"
    by (rule addBorderToNode_twice)
  show "borderEffect colour b (borderEffect colour b nodes) = borderEffect colour b nodes"
  proof (cases b)
    case None
    then show ?thesis by (simp add: borderEffect_def)
  next
    case (Some t)
    show ?thesis
    proof (cases "t = [] \<or> find (\<lambda>node. id_n node = t \<and>
                            styleBorder node = Str (highlightBorder colour)) nodes \<noteq> None")
      case True
      then show ?thesis using Some by (auto simp: borderEffect_def)
    next
      case False
      then have first: "borderEffect colour b nodes = addBorderToNode colour t nodes"
        using Some by (simp add: borderEffect_def)
      show ?thesis
        unfolding first
        using Some False
        by (simp add: borderEffect_def addBorderToNode_twice split: option.splits)
    qed
  qed
qed

theorem highlight_idempotent_witness:
  "borderEffect ''#007bff'' (Some ''n1'') [sampleNode, styledNode] =
     [sampleNode\<lparr>style := Some [''border'' \<mapsto> Str ''2px solid #007bff'']\<rparr>,
      styledNode\<lparr>style := Some [''color'' \<mapsto> Str ''red'', ''border'' \<mapsto> Undefined]\<rparr>] \<and>
   borderEffect ''#007bff'' (Some ''n1'')
     (borderEffect ''#007bff'' (Some ''n1'') [sampleNode, styledNode]) =
     [sampleNode\<lparr>style := Some [''border'' \<mapsto> Str ''2px solid #007bff'']\<rparr>,
      styledNode\<lparr>style := Some [''color'' \<mapsto> Str ''red'', ''border'' \<mapsto> Undefined]\<rparr>]"
proof -
  have "borderEffect ''#007bff'' (Some ''n1'') [sampleNode, styledNode] =
          addBorderToNode ''#007bff'' ''n1'' [sampleNode, styledNode]"
    by (simp add: borderEffect_def styleBorder_def sampleNode_def styledNode_def)
  then show ?thesis
    using highlight_idempotent
            [of "''#007bff''" "''n1''" "[sampleNode, styledNode]" "Some ''n1''"]
    by (simp add: sample_highlight)
qed

text \<open>
  Claim C10. \<open>addBorderToNode\<close> keeps the length and the order of the node sequence; each
  node keeps every field but \<open>style\<close>; its new style is an object that agrees with the
  old one (the empty object when there was none) on every key but \<open>border\<close>, and holds
  under \<open>border\<close> the highlight border for the target and \<open>undefined\<close> for every other
  node.
\<close>

theorem highlight_rewrites_border_only:
  "length (addBorderToNode colour X nodes) = length nodes \<and>
   (\<forall>i<length nodes.
      (addBorderToNode colour X nodes ! i)\<lparr>style := style (nodes ! i)\<rparr> = nodes ! i \<and>
      (\<exists>s'. style (addBorderToNode colour X nodes ! i) = Some s' \<and>
         (\<forall>k. k \<noteq> ''border'' \<longrightarrow>
            s' k = (case style (nodes ! i) of None \<Rightarrow> None | Some s \<Rightarrow> s k)) \<and>
         s' ''border'' =
           Some (if id_n (nodes ! i) = X then Str (highlightBorder colour) else Undefined)))"
proof (intro conjI allI impI)
  show "length (addBorderToNode colour X nodes) = length nodes"
    by (simp add: addBorderToNode_def)
next
  fix i
  assume i: "i < length nodes"
  show "(addBorderToNode colour X nodes ! i)\<lparr>style := style (nodes ! i)\<rparr> = nodes ! i"
    by (simp add: addBorderToNode_nth [OF i])
  show "\<exists>s'. style (addBorderToNode colour X nodes ! i) = Some s' \<and>
         (\<forall>k. k \<noteq> ''border'' \<longrightarrow>
            s' k = (case style (nodes ! i) of None \<Rightarrow> None | Some s \<Rightarrow> s k)) \<and>
         s' ''border'' =
           Some (if id_n (nodes ! i) = X then Str (highlightBorder colour) else Undefined)"
    by (simp add: addBorderToNode_nth [OF i] split: option.splits)
qed

theorem highlight_rewrites_border_only_witness:
  "addBorderToNode ''#007bff'' ''n1'' [sampleNode, styledNode] ! 1 =
     styledNode\<lparr>style := Some [''color'' \<mapsto> Str ''red'', ''border'' \<mapsto> Undefined]\<rparr> \<and>
   (styledNode\<lparr>style := Some [''color'' \<mapsto> Str ''red'', ''border'' \<mapsto> Undefined]\<rparr>)
     \<lparr>style := style styledNode\<rparr> = styledNode"
  using highlight_rewrites_border_only [of "''#007bff''" "''n1''" "[sampleNode, styledNode]"]
  by (simp add: sample_highlight)

section \<open>Theme defaults\<close>

lemma or_else_absent: "a = None \<or> a = Some [] \<Longrightarrow> or_else a b = b"
  by (auto simp: or_else_def)

lemma or_else_present: "a = Some s \<Longrightarrow> s \<noteq> [] \<Longrightarrow> or_else a b = s"
  by (simp add: or_else_def)

text \<open>
  Claim C9, as stated, at a concrete input: with every colour absent, the resolved primary
  colour is the same constant for the base \<open>dark\<close> and for the base \<open>light\<close>, so it is
  not derived from the base as the background and the text colour are.
\<close>

theorem theme_primary_default_counterexample:
  "styles_primaryColor (useFlowChartStyles (Some \<lparr>base = Some ''dark'',
      secondaryBackgroundColor = None, textColor = None, primaryColor = None\<rparr>)) = ''#007bff'' \<and>
   styles_primaryColor (useFlowChartStyles (Some \<lparr>base = Some ''light'',
      secondaryBackgroundColor = None, textColor = None, primaryColor = None\<rparr>)) = ''#007bff''"
  by (simp add: useFlowChartStyles_def or_else_def)

text \<open>
  Claim C9, amended. A theme field that is absent (undefined, or the empty string, which
  \<open>||\<close> treats alike) resolves to a default: the background, read from
  \<open>secondaryBackgroundColor\<close>, to \<open>#333\<close> when the base is \<open>dark\<close> and to \<open>#fff\<close>
  otherwise; the text colour to \<open>#fff\<close> when the base is \<open>dark\<close> and to \<open>#000\<close>
  otherwise; the primary colour to \<open>#007bff\<close> whatever the base. A field that is
  present resolves to itself.
\<close>

theorem theme_defaults:
  "((Option.bind t secondaryBackgroundColor = None \<or>
     Option.bind t secondaryBackgroundColor = Some []) \<longrightarrow>
      styles_backgroundColor (useFlowChartStyles t) =
        (if Option.bind t base = Some ''dark'' then ''#333'' else ''#fff'')) \<and>
   ((Option.bind t textColor = None \<or> Option.bind t textColor = Some []) \<longrightarrow>
      styles_textColor (useFlowChartStyles t) =
        (if Option.bind t base = Some ''dark'' then ''#fff'' else ''#000'')) \<and>
   ((Option.bind t primaryColor = None \<or> Option.bind t primaryColor = Some []) \<longrightarrow>
      styles_primaryColor (useFlowChartStyles t) = ''#007bff'') \<and>
   (\<forall>s. s \<noteq> [] \<longrightarrow>
      (Option.bind t secondaryBackgroundColor = Some s \<longrightarrow>
         styles_backgroundColor (useFlowChartStyles t) = s) \<and>
      (Option.bind t textColor = Some s \<longrightarrow>
         styles_textColor (useFlowChartStyles t) = s) \<and>
      (Option.bind t primaryColor = Some s \<longrightarrow>
         styles_primaryColor (useFlowChartStyles t) = s))"
  by (auto simp: useFlowChartStyles_def Let_def or_else_absent or_else_present)

theorem theme_defaults_witness:
  "useFlowChartStyles (Some \<lparr>base = Some ''dark'', secondaryBackgroundColor = None,
       textColor = Some [], primaryColor = None\<rparr>) =
     \<lparr>styles_backgroundColor = ''#333'', styles_textColor = ''#fff'',
      styles_primaryColor = ''#007bff''\<rparr> \<and>
   useFlowChartStyles None =
     \<lparr>styles_backgroundColor = ''#fff'', styles_textColor = ''#000'',
      styles_primaryColor = ''#007bff''\<rparr> \<and>
   useFlowChartStyles (Some \<lparr>base = Some ''light'', secondaryBackgroundColor = Some ''#eee'',
       textColor = None, primaryColor = Some ''#f00''\<rparr>) =
     \<lparr>styles_backgroundColor = ''#eee'', styles_textColor = ''#000'',
      styles_primaryColor = ''#f00''\<rparr>"
  using theme_defaults [of "Some \<lparr>base = Some ''dark'', secondaryBackgroundColor = None,
       textColor = Some [], primaryColor = None\<rparr>"]
    theme_defaults [of None]
    theme_defaults [of "Some \<lparr>base = Some ''light'', secondaryBackgroundColor = Some ''#eee'',
       textColor = None, primaryColor = Some ''#f00''\<rparr>"]
  by (simp add: useFlowChartStyles_def or_else_def)

section \<open>Host updates\<close>

lemma default_layout:
  "getLayoutedElements sampleEngine (initialNodes :: (real, real json) MeasuredNode list)
     initialEdges \<lparr>direction = ''TB''\<rparr> =
     Inr ([(hd initialNodes)\<lparr>position := \<lparr>pos_x = 50, pos_y = 25\<rparr>\<rparr>], initialEdges)"
  by (simp add: getLayoutedElements_def sampleEngine_def initialNodes_def initialEdges_def
      layoutNode_def nullish_def graph_defs)

lemma pushed_layout:
  "getLayoutedElements sampleEngine [sampleNode] initialEdges \<lparr>direction = ''TB''\<rparr> =
     Inr ([sampleNode\<lparr>position := \<lparr>pos_x = 40, pos_y = 20\<rparr>\<rparr>], initialEdges)"
  by (simp add: getLayoutedElements_def sampleEngine_def sampleNode_def initialEdges_def
      layoutNode_def nullish_def graph_defs)

lemma mount_default: "mount sampleEngine None = Inr mountedDefault"
  by (simp add: mount_def firstRender_def initialData_def nullish_def default_layout
      propsEffect_def mountedDefault_def)

lemma push_sample: "hostPush sampleEngine (Some pushedArgs) mountedDefault = Inr afterPush"
proof -
  have d: "initialData (Some pushedArgs) = ([sampleNode], initialEdges)"
    by (simp add: initialData_def pushedArgs_def nullish_def)
  have ne: "([sampleNode], initialEdges) \<noteq> layoutDeps mountedDefault"
    by (simp add: mountedDefault_def sampleNode_def initialNodes_def)
  show ?thesis
    using ne
    by (simp add: hostPush_def reRender_def d pushed_layout propsEffect_def)
       (simp add: mountedDefault_def afterPush_def pushedArgs_def)
qed

text \<open>
  Claim C6, as stated, at a concrete input: a component mounted without host data has run
  the layout once; when the host then pushes one node, the node state becomes that node,
  and the layout has run a second time, on the pushed node.
\<close>

theorem host_push_reruns_layout_counterexample:
  "mount sampleEngine None = Inr mountedDefault \<and>
   hostPush sampleEngine (Some pushedArgs) mountedDefault = Inr afterPush \<and>
   layoutRuns mountedDefault = 1 \<and> layoutRuns afterPush = 2 \<and>
   layoutedData afterPush =
     ([sampleNode\<lparr>position := \<lparr>pos_x = 40, pos_y = 20\<rparr>\<rparr>], initialEdges)"
  by (simp add: mount_default push_sample) (simp add: mountedDefault_def afterPush_def)

text \<open>
  Claim C6, amended. After the host has pushed a payload to a mounted component, the node
  state is exactly the pushed node sequence and the edge state exactly the pushed edge
  sequence (a sequence that is not pushed leaves its state as it was), positions included;
  the result of the layout is not written to either. The layout itself does run again on
  the pushed sequences whenever they differ from the inputs of the previous layout.
\<close>

theorem host_push_replaces_state:
  assumes "hostPush layout args fc = Inr fc'"
  shows "nodes_s fc' = (case Option.bind args nodes_a of None \<Rightarrow> nodes_s fc | Some ns \<Rightarrow> ns) \<and>
         edges_s fc' = (case Option.bind args edges_a of None \<Rightarrow> edges_s fc | Some es \<Rightarrow> es) \<and>
         (initialData args \<noteq> layoutDeps fc \<longrightarrow>
            layoutRuns fc' = Suc (layoutRuns fc) \<and>
            getLayoutedElements layout (fst (initialData args)) (snd (initialData args))
              \<lparr>direction = ''TB''\<rparr> = Inr (layoutedData fc'))"
proof -
  from assms obtain fc1 where
    r: "reRender layout args fc = Inr fc1" and e: "fc' = propsEffect args fc1"
    by (auto simp: hostPush_def split: sum.splits)
  have keep: "nodes_s fc1 = nodes_s fc \<and> edges_s fc1 = edges_s fc"
    using r by (auto simp: reRender_def Let_def split: if_splits sum.splits)
  have ns: "nodes_s fc' = (case Option.bind args nodes_a of None \<Rightarrow> nodes_s fc | Some ns \<Rightarrow> ns)"
    using keep by (simp add: e propsEffect_def Let_def split: option.splits)
  have es: "edges_s fc' = (case Option.bind args edges_a of None \<Rightarrow> edges_s fc | Some es \<Rightarrow> es)"
    using keep by (simp add: e propsEffect_def Let_def split: option.splits)
  have memo: "layoutRuns fc' = layoutRuns fc1 \<and> layoutedData fc' = layoutedData fc1"
    by (simp add: e propsEffect_def Let_def split: option.splits)
  have run: "layoutRuns fc1 = Suc (layoutRuns fc) \<and>
            getLayoutedElements layout (fst (initialData args)) (snd (initialData args))
              \<lparr>direction = ''TB''\<rparr> = Inr (layoutedData fc1)"
    if "initialData args \<noteq> layoutDeps fc"
    using r that by (auto simp: reRender_def Let_def split: sum.splits)
  from ns es memo run show ?thesis by simp
qed

theorem host_push_replaces_state_witness:
  "hostPush sampleEngine (Some pushedArgs) mountedDefault = Inr afterPush \<and>
   nodes_s afterPush = [sampleNode] \<and> edges_s afterPush = edges_s mountedDefault \<and>
   position (hd (nodes_s afterPush)) = \<lparr>pos_x = 7, pos_y = 9\<rparr>"
  using host_push_replaces_state [OF push_sample]
  by (simp add: push_sample) (simp add: afterPush_def mountedDefault_def sampleNode_def pushedArgs_def)

section \<open>The deferred fit-view call\<close>

lemma run_append: "run (evs @ evs') v = run evs' (run evs v)"
  by (simp add: run_def)

lemma run_Cons: "run (e # evs) v = run evs (step e v)"
  by (simp add: run_def)

lemma run_Nil: "run [] v = v"
  by (simp add: run_def)

lemmas view_defs = fitViewEffect_def fitViewCleanup_def setTimeout_def clearTimeout_def

lemma view_ok_initial: "view_ok initialView"
  by (simp add: view_ok_def initialView_def)

lemma view_ok_step: "view_ok v \<Longrightarrow> view_ok (step e v)"
proof (cases e)
  case Mount
  assume "view_ok v"
  then show ?thesis
    using Mount by (auto simp: view_ok_def view_defs)
next
  case FitViewChanged
  assume "view_ok v"
  then show ?thesis
    using FitViewChanged
    by (auto simp: view_ok_def view_defs distinct_removeAll split: option.splits)
next
  case Unmount
  assume "view_ok v"
  then show ?thesis
    using Unmount
    by (auto simp: view_ok_def view_defs distinct_removeAll split: option.splits)
next
  case Tick
  assume ok: "view_ok v"
  show ?thesis
  proof (cases "pendingTimers v")
    case Nil
    then show ?thesis using ok Tick by simp
  next
    case (Cons t ts)
    from ok have "set (pendingTimers v) \<subseteq> set_option (timeoutId v)"
      and "distinct (pendingTimers v)"
      unfolding view_ok_def by blast+
    then have sub: "set (t # ts) \<subseteq> set_option (timeoutId v)" and d: "distinct (t # ts)"
      unfolding Cons .
    from sub have tid: "timeoutId v = Some t"
      by (cases "timeoutId v") auto
    with sub have "set ts \<subseteq> {t}" by auto
    with d have ts: "ts = []" by (cases ts) auto
    from ok tid have m: "mounted v" by (auto simp: view_ok_def)
    from ok have "\<forall>c \<in> set (fitViewLog v). fst c < nextTimer v \<and> snd c"
      by (simp add: view_ok_def)
    moreover from ok Cons have "t < nextTimer v" by (simp add: view_ok_def)
    ultimately show ?thesis
      using Tick Cons ts m ok by (auto simp: view_ok_def)
  qed
qed

lemma view_ok_run: "view_ok v \<Longrightarrow> view_ok (run evs v)"
  by (induction evs arbitrary: v) (simp_all add: run_Nil run_Cons view_ok_step)

lemma gone_step:
  assumes "t < nextTimer v" "t \<notin> set (pendingTimers v)" "t \<notin> fst ` set (fitViewLog v)"
  shows "t < nextTimer (step e v) \<and> t \<notin> set (pendingTimers (step e v)) \<and>
         t \<notin> fst ` set (fitViewLog (step e v))"
proof (cases e)
  case Mount
  then show ?thesis using assms by (auto simp: view_defs)
next
  case FitViewChanged
  then show ?thesis using assms by (auto simp: view_defs split: option.splits)
next
  case Unmount
  then show ?thesis using assms by (auto simp: view_defs split: option.splits)
next
  case Tick
  then show ?thesis using assms by (auto split: list.splits)
qed

lemma gone_run:
  "t < nextTimer v \<Longrightarrow> t \<notin> set (pendingTimers v) \<Longrightarrow> t \<notin> fst ` set (fitViewLog v) \<Longrightarrow>
     t \<notin> fst ` set (fitViewLog (run evs v))"
proof (induction evs arbitrary: v)
  case Nil
  then show ?case by (simp add: run_Nil)
next
  case (Cons e evs)
  from gone_step [OF Cons.prems, of e] show ?case
    by (simp add: run_Cons Cons.IH)
qed

text \<open>
  Claim C8. Take any state the component can reach and a timer that is pending in it, that
  is, scheduled and not yet run. When the component unmounts, or renders again with
  another \<open>fitView\<close>, the timer is no longer pending, and whatever happens afterwards it
  never makes its \<open>fitView\<close> call; moreover every \<open>fitView\<close> call that is ever made is made
  while the component is mounted.
\<close>

theorem cancelled_fit_view_never_runs:
  assumes "v = run pre initialView"
    and "t \<in> set (pendingTimers v)"
    and "e = Unmount \<or> e = FitViewChanged"
  shows "t \<notin> set (pendingTimers (step e v)) \<and>
         (\<forall>post. t \<notin> fst ` set (fitViewLog (run post (step e v)))) \<and>
         (\<forall>post. \<forall>c \<in> set (fitViewLog (run post (step e v))). snd c)"
proof -
  have ok: "view_ok v"
    unfolding assms(1) by (rule view_ok_run) (rule view_ok_initial)
  from ok assms(2) have tid: "timeoutId v = Some t"
    by (cases "timeoutId v") (auto simp: view_ok_def)
  with ok have m: "mounted v" by (auto simp: view_ok_def)
  from ok assms(2) have lt: "t < nextTimer v" and nl: "t \<notin> fst ` set (fitViewLog v)"
    by (auto simp: view_ok_def)
  have g: "t < nextTimer (step e v) \<and> t \<notin> set (pendingTimers (step e v)) \<and>
         t \<notin> fst ` set (fitViewLog (step e v))"
    using assms(3) tid m lt nl by (auto simp: view_defs)
  then have never: "t \<notin> fst ` set (fitViewLog (run post (step e v)))" for post
    by (simp add: gone_run)
  have "view_ok (run post (step e v))" for post
    using ok by (simp add: view_ok_step view_ok_run)
  then have "\<forall>c \<in> set (fitViewLog (run post (step e v))). snd c" for post
    by (simp add: view_ok_def)
  with g never show ?thesis by simp
qed

theorem cancelled_fit_view_never_runs_witness:
  "pendingTimers (run [Mount] initialView) = [1] \<and>
   pendingTimers (step Unmount (run [Mount] initialView)) = [] \<and>
   fitViewLog (run [Tick, Mount, Tick] (step Unmount (run [Mount] initialView))) = [(2, True)]"
proof -
  have p: "1 \<in> set (pendingTimers (run [Mount] initialView))"
    by (simp add: run_def view_defs initialView_def)
  from cancelled_fit_view_never_runs [OF refl p, of Unmount]
  have "1 \<notin> set (pendingTimers (step Unmount (run [Mount] initialView)))"
    by simp
  then show ?thesis
    by (simp add: run_def view_defs initialView_def)
qed

end
